theory Spec2Isabelle
  imports Main "HOL-Library.Word"
begin

unbundle bit_operations_syntax

section \<open>JavaScript integer operators\<close>

text \<open>
  The engine computes on JavaScript Numbers that hold integers.  The bitwise operators
  first convert each operand with ToInt32 (the value modulo \<open>2 ^ 32\<close>, read as a signed
  32-bit integer) and then work on those 32 bits; a shift count is taken modulo 32.
  Numbers are modelled as \<open>int\<close>, and \<open>+\<close> and \<open>-\<close> on them as exact.  A Number is a
  double: it holds every integer from \<open>- (2 ^ 53)\<close> to \<open>2 ^ 53\<close>, and \<^verbatim>\<open>x + 1\<close> is exact for
  \<open>- (2 ^ 53) \<le> x\<close> and \<open>x < 2 ^ 53\<close>, while \<^verbatim>\<open>2 ** 53 + 1\<close> rounds back to \<open>2 ^ 53\<close>.  The
  definitions below that add (\<open>readWord\<close>, \<open>writeWord\<close>, \<open>pushStack\<close>, \<open>popStack\<close>,
  \<open>loadProgram\<close>, \<open>step\<close>, \<open>executeInstruction\<close>) are the source's on that range, and the
  theorems about an addition on an argument or a register state the range.
\<close>

definition ToInt32 :: "int \<Rightarrow> int" where
  "ToInt32 x = signed_take_bit 31 x"

text \<open>\<^verbatim>\<open>x & y\<close>\<close>

definition js_and :: "int \<Rightarrow> int \<Rightarrow> int" where
  "js_and x y = ToInt32 x AND ToInt32 y"

text \<open>\<^verbatim>\<open>x | y\<close>\<close>

definition js_or :: "int \<Rightarrow> int \<Rightarrow> int" where
  "js_or x y = ToInt32 x OR ToInt32 y"

text \<open>\<^verbatim>\<open>x << k\<close>\<close>

definition js_shl :: "int \<Rightarrow> int \<Rightarrow> int" where
  "js_shl x k = ToInt32 (push_bit (nat (k mod 32)) (ToInt32 x))"

text \<open>\<^verbatim>\<open>x >> k\<close> (sign-propagating)\<close>

definition js_shr :: "int \<Rightarrow> int \<Rightarrow> int" where
  "js_shr x k = drop_bit (nat (k mod 32)) (ToInt32 x)"


section \<open>Data model of \<open>Z80Core\<close>\<close>

text \<open>
  The keys of \<^verbatim>\<open>this.registers\<close> that hold numbers.  The one-letter keys of the source
  carry the suffix \<open>_reg\<close>.
\<close>

datatype reg_key =
    a_reg | b_reg | c_reg | d_reg | e_reg | h_reg | l_reg
  | a_prime | b_prime | c_prime | d_prime | e_prime | h_prime | l_prime
  | i_reg | r_reg
  | ix_reg | iy_reg | sp_reg | pc_reg

text \<open>The keys of a flags object (\<^verbatim>\<open>s, z, h, pv, n, c\<close>).\<close>

datatype flag_key = s_flag | z_flag | h_flag | pv_flag | n_flag | c_flag

text \<open>
  A flags object is a JavaScript object and is reached through a reference:
  \<^verbatim>\<open>this.registers.flags\<close> and \<^verbatim>\<open>this.registers.flags_prime\<close> hold references, which
  \<^verbatim>\<open>exchangeRegisterSets\<close> swaps and which a spread copy of \<^verbatim>\<open>this.registers\<close> shares.
  The store \<open>objects\<close> maps each reference to the object's current fields.
\<close>

type_synonym ref = nat

type_synonym flags_obj = "flag_key \<Rightarrow> int"

record registers_obj =
  regs :: "reg_key \<Rightarrow> int"
  flags :: ref
  flags_prime :: ref

text \<open>
  \<^verbatim>\<open>memory\<close> is a \<^verbatim>\<open>Uint8Array(65536)\<close>: 65536 cells of one byte each.
\<close>

record Z80Core =
  registers :: registers_obj
  memory :: "16 word \<Rightarrow> 8 word"
  halted :: bool
  interruptsEnabled :: bool
  breakpoints :: "int set"
  isDebugging :: bool
  stepMode :: bool
  objects :: "ref \<Rightarrow> flags_obj"

text \<open>Reading and assigning \<^verbatim>\<open>this.registers.k\<close> for a numeric key \<open>k\<close>.\<close>

definition reg :: "Z80Core \<Rightarrow> reg_key \<Rightarrow> int" where
  "reg m k = regs (registers m) k"

definition set_reg :: "reg_key \<Rightarrow> int \<Rightarrow> Z80Core \<Rightarrow> Z80Core" where
  "set_reg k v m = m\<lparr>registers := (registers m)\<lparr>regs := (regs (registers m))(k := v)\<rparr>\<rparr>"

text \<open>Reading and assigning \<^verbatim>\<open>this.registers.flags.k\<close>.\<close>

definition flag :: "Z80Core \<Rightarrow> flag_key \<Rightarrow> int" where
  "flag m k = objects m (flags (registers m)) k"

definition set_flag :: "flag_key \<Rightarrow> int \<Rightarrow> Z80Core \<Rightarrow> Z80Core" where
  "set_flag k v m =
     m\<lparr>objects := (objects m)(flags (registers m) := (objects m (flags (registers m)))(k := v))\<rparr>"

text \<open>The constructor: the two flags objects are the objects 0 and 1 of the store.\<close>

definition constructor :: Z80Core where
  "constructor =
     \<lparr>registers = \<lparr>regs = (\<lambda>_. 0), flags = 0, flags_prime = 1\<rparr>,
      memory = (\<lambda>_. 0),
      halted = False,
      interruptsEnabled = False,
      breakpoints = {},
      isDebugging = False,
      stepMode = False,
      objects = (\<lambda>_ _. 0)\<rparr>"


section \<open>Register pairs and the F register\<close>

definition getBC :: "Z80Core \<Rightarrow> int" where
  "getBC m = js_or (js_shl (reg m b_reg) 8) (reg m c_reg)"

definition getDE :: "Z80Core \<Rightarrow> int" where
  "getDE m = js_or (js_shl (reg m d_reg) 8) (reg m e_reg)"

definition getHL :: "Z80Core \<Rightarrow> int" where
  "getHL m = js_or (js_shl (reg m h_reg) 8) (reg m l_reg)"

definition setBC :: "int \<Rightarrow> Z80Core \<Rightarrow> Z80Core" where
  "setBC v m = set_reg c_reg (js_and v 0xFF) (set_reg b_reg (js_and (js_shr v 8) 0xFF) m)"

definition setDE :: "int \<Rightarrow> Z80Core \<Rightarrow> Z80Core" where
  "setDE v m = set_reg e_reg (js_and v 0xFF) (set_reg d_reg (js_and (js_shr v 8) 0xFF) m)"

definition setHL :: "int \<Rightarrow> Z80Core \<Rightarrow> Z80Core" where
  "setHL v m = set_reg l_reg (js_and v 0xFF) (set_reg h_reg (js_and (js_shr v 8) 0xFF) m)"

definition getF :: "Z80Core \<Rightarrow> int" where
  "getF m =
     js_or (js_or (js_or (js_or (js_or
       (js_shl (flag m s_flag) 7)
       (js_shl (flag m z_flag) 6))
       (js_shl (flag m h_flag) 4))
       (js_shl (flag m pv_flag) 2))
       (js_shl (flag m n_flag) 1))
       (flag m c_flag)"

definition setF :: "int \<Rightarrow> Z80Core \<Rightarrow> Z80Core" where
  "setF v m =
     set_flag c_flag (js_and v 0x01)
    (set_flag n_flag (js_shr (js_and v 0x02) 1)
    (set_flag pv_flag (js_shr (js_and v 0x04) 2)
    (set_flag h_flag (js_shr (js_and v 0x10) 4)
    (set_flag z_flag (js_shr (js_and v 0x40) 6)
    (set_flag s_flag (js_shr (js_and v 0x80) 7) m)))))"

definition exchangeRegisterSets :: "Z80Core \<Rightarrow> Z80Core" where
  "exchangeRegisterSets m =
     (let r = registers m; g = regs r in
      m\<lparr>registers :=
          \<lparr>regs = g(a_reg := g a_prime, a_prime := g a_reg,
                    b_reg := g b_prime, b_prime := g b_reg,
                    c_reg := g c_prime, c_prime := g c_reg,
                    d_reg := g d_prime, d_prime := g d_reg,
                    e_reg := g e_prime, e_prime := g e_reg,
                    h_reg := g h_prime, h_prime := g h_reg,
                    l_reg := g l_prime, l_prime := g l_reg),
           flags = flags_prime r,
           flags_prime = flags r\<rparr>\<rparr>)"


section \<open>Memory and stack\<close>

definition readByte :: "Z80Core \<Rightarrow> int \<Rightarrow> int" where
  "readByte m address = uint (memory m (word_of_int (js_and address 0xFFFF)))"

definition writeByte :: "int \<Rightarrow> int \<Rightarrow> Z80Core \<Rightarrow> Z80Core" where
  "writeByte address v m =
     m\<lparr>memory := (memory m)(word_of_int (js_and address 0xFFFF) := word_of_int (js_and v 0xFF))\<rparr>"

definition readWord :: "Z80Core \<Rightarrow> int \<Rightarrow> int" where
  "readWord m address =
     (let low = readByte m address;
          high = readByte m (js_and (address + 1) 0xFFFF)
      in js_or (js_shl high 8) low)"

definition writeWord :: "int \<Rightarrow> int \<Rightarrow> Z80Core \<Rightarrow> Z80Core" where
  "writeWord address v m =
     writeByte (js_and (address + 1) 0xFFFF) (js_and (js_shr v 8) 0xFF)
       (writeByte address (js_and v 0xFF) m)"

definition pushStack :: "int \<Rightarrow> Z80Core \<Rightarrow> Z80Core" where
  "pushStack v m =
     (let m1 = set_reg sp_reg (js_and (reg m sp_reg - 2) 0xFFFF) m
      in writeWord (reg m1 sp_reg) v m1)"

definition popStack :: "Z80Core \<Rightarrow> int \<times> Z80Core" where
  "popStack m =
     (let v = readWord m (reg m sp_reg)
      in (v, set_reg sp_reg (js_and (reg m sp_reg + 2) 0xFFFF) m))"

text \<open>
  \<^verbatim>\<open>reset\<close> walks over the keys of \<^verbatim>\<open>this.registers\<close>: a numeric key is set to 0, and
  under the keys \<^verbatim>\<open>flags\<close> and \<^verbatim>\<open>flags_prime\<close> every field of the object referred to
  is set to 0 (the objects are changed in place, the references stay).
\<close>

definition reset :: "Z80Core \<Rightarrow> Z80Core" where
  "reset m =
     (let r = registers m;
          objs = (objects m)(flags r := (\<lambda>_. 0));
          objs' = objs(flags_prime r := (\<lambda>_. 0))
      in m\<lparr>registers := r\<lparr>regs := (\<lambda>_. 0)(pc_reg := 0, sp_reg := 0xFFFF)\<rparr>,
           objects := objs',
           halted := False,
           interruptsEnabled := False\<rparr>)"

text \<open>\<^verbatim>\<open>loadProgram(program, startAddress)\<close>; the index \<open>i\<close> of the loop is the first argument.\<close>

fun loadProgram_from :: "int \<Rightarrow> int list \<Rightarrow> int \<Rightarrow> Z80Core \<Rightarrow> Z80Core" where
  "loadProgram_from i [] startAddress m = m"
| "loadProgram_from i (x # program) startAddress m =
     loadProgram_from (i + 1) program startAddress (writeByte (startAddress + i) x m)"

definition loadProgram :: "int list \<Rightarrow> int \<Rightarrow> Z80Core \<Rightarrow> Z80Core" where
  "loadProgram program startAddress m = loadProgram_from 0 program startAddress m"


section \<open>Breakpoints\<close>

definition setBreakpoint :: "int \<Rightarrow> Z80Core \<Rightarrow> Z80Core" where
  "setBreakpoint address m = m\<lparr>breakpoints := insert (js_and address 0xFFFF) (breakpoints m)\<rparr>"

definition clearBreakpoint :: "int \<Rightarrow> Z80Core \<Rightarrow> Z80Core" where
  "clearBreakpoint address m = m\<lparr>breakpoints := breakpoints m - {js_and address 0xFFFF}\<rparr>"

definition toggleBreakpoint :: "int \<Rightarrow> Z80Core \<Rightarrow> bool \<times> Z80Core" where
  "toggleBreakpoint address m =
     (let address = js_and address 0xFFFF in
      if address \<in> breakpoints m
      then (False, m\<lparr>breakpoints := breakpoints m - {address}\<rparr>)
      else (True, m\<lparr>breakpoints := insert address (breakpoints m)\<rparr>))"

definition clearAllBreakpoints :: "Z80Core \<Rightarrow> Z80Core" where
  "clearAllBreakpoints m = m\<lparr>breakpoints := {}\<rparr>"


section \<open>Execution\<close>

definition executeInstruction :: "int \<Rightarrow> Z80Core \<Rightarrow> Z80Core" where
  "executeInstruction opcode m =
     (if opcode = 0x00 then m
      else if opcode = 0x3E then
        (let v = readByte m (reg m pc_reg);
             m1 = set_reg pc_reg (js_and (reg m pc_reg + 1) 0xFFFF) m
         in set_reg a_reg v m1)
      else if opcode = 0x76 then m\<lparr>halted := True\<rparr>
      else m)"

definition step :: "Z80Core \<Rightarrow> bool \<times> Z80Core" where
  "step m =
     (if halted m then (False, m)
      else
        (let opcode = readByte m (reg m pc_reg);
             m1 = set_reg pc_reg (js_and (reg m pc_reg + 1) 0xFFFF) m
         in (True, executeInstruction opcode m1)))"

text \<open>\<open>k\<close> calls of \<^verbatim>\<open>step()\<close> in a row, as a driver makes them.\<close>

fun steps :: "nat \<Rightarrow> Z80Core \<Rightarrow> Z80Core" where
  "steps 0 m = m"
| "steps (Suc k) m = steps k (snd (step m))"

text \<open>
  The loop of \<^verbatim>\<open>run\<close>.  It need not end (a memory of NOPs with no breakpoint), so it is
  a partial function: \<open>None\<close> stands for a loop that never returns.
\<close>

partial_function (option) run_loop :: "Z80Core \<Rightarrow> Z80Core option" where
  "run_loop m =
     (if halted m then Some m
      else if reg m pc_reg \<in> breakpoints m then Some (m\<lparr>isDebugging := True\<rparr>)
      else run_loop (snd (step m)))"

definition run :: "Z80Core \<Rightarrow> Z80Core option" where
  "run m = run_loop (m\<lparr>isDebugging := False\<rparr>)"


section \<open>Snapshots\<close>

text \<open>
  The object returned by \<^verbatim>\<open>getState\<close>.  \<open>snap_registers\<close> is the spread copy
  \<^verbatim>\<open>{ ...this.registers }\<close>: a new object whose fields hold the values of the fields of
  \<^verbatim>\<open>this.registers\<close>, so its \<open>flags\<close> and \<open>flags_prime\<close> fields hold the same two
  references.  \<open>snap_flags\<close> is the spread copy \<^verbatim>\<open>{ ...this.registers.flags }\<close>: a new
  object that nothing else refers to, held by value.
\<close>

record snapshot =
  snap_registers :: registers_obj
  snap_pc :: int
  snap_sp :: int
  snap_flags :: flags_obj
  snap_halted :: bool
  snap_interruptsEnabled :: bool

definition getState :: "Z80Core \<Rightarrow> snapshot" where
  "getState m =
     \<lparr>snap_registers = registers m,
      snap_pc = reg m pc_reg,
      snap_sp = reg m sp_reg,
      snap_flags = objects m (flags (registers m)),
      snap_halted = halted m,
      snap_interruptsEnabled = interruptsEnabled m\<rparr>"

text \<open>
  What a holder of a snapshot can assign to: every field of the returned object and of
  the objects nested in it.  An assignment to a field of \<^verbatim>\<open>snapshot.registers.flags\<close> or
  \<^verbatim>\<open>snapshot.registers.flags_prime\<close> goes through the reference held there and changes
  the object in the store; every other assignment changes the snapshot alone.
\<close>

datatype assignment =
    Set_registers reg_key int
  | Set_registers_flags flag_key int
  | Set_registers_flags_prime flag_key int
  | Set_pc int
  | Set_sp int
  | Set_flags flag_key int
  | Set_halted bool
  | Set_interruptsEnabled bool

fun assign :: "assignment \<Rightarrow> snapshot \<times> Z80Core \<Rightarrow> snapshot \<times> Z80Core" where
  "assign (Set_registers k v) (sn, m) =
     (sn\<lparr>snap_registers := (snap_registers sn)\<lparr>regs := (regs (snap_registers sn))(k := v)\<rparr>\<rparr>, m)"
| "assign (Set_registers_flags k v) (sn, m) =
     (let r = flags (snap_registers sn)
      in (sn, m\<lparr>objects := (objects m)(r := (objects m r)(k := v))\<rparr>))"
| "assign (Set_registers_flags_prime k v) (sn, m) =
     (let r = flags_prime (snap_registers sn)
      in (sn, m\<lparr>objects := (objects m)(r := (objects m r)(k := v))\<rparr>))"
| "assign (Set_pc v) (sn, m) = (sn\<lparr>snap_pc := v\<rparr>, m)"
| "assign (Set_sp v) (sn, m) = (sn\<lparr>snap_sp := v\<rparr>, m)"
| "assign (Set_flags k v) (sn, m) = (sn\<lparr>snap_flags := (snap_flags sn)(k := v)\<rparr>, m)"
| "assign (Set_halted v) (sn, m) = (sn\<lparr>snap_halted := v\<rparr>, m)"
| "assign (Set_interruptsEnabled v) (sn, m) = (sn\<lparr>snap_interruptsEnabled := v\<rparr>, m)"

text \<open>
  The argument of \<^verbatim>\<open>setState\<close>: every part may be absent (\<open>None\<close>), and the objects
  under \<^verbatim>\<open>registers\<close> and \<^verbatim>\<open>flags\<close> may hold any subset of the keys.  A key that
  \<^verbatim>\<open>this.registers\<close> does not have is skipped by the source and has no place here.
\<close>

record registers_arg =
  arg_regs :: "reg_key \<rightharpoonup> int"
  arg_flags :: "ref option"
  arg_flags_prime :: "ref option"

record state_arg =
  st_registers :: "registers_arg option"
  st_flags :: "(flag_key \<rightharpoonup> int) option"
  st_pc :: "int option"
  st_sp :: "int option"
  st_halted :: "bool option"
  st_interruptsEnabled :: "bool option"

definition setState :: "state_arg \<Rightarrow> Z80Core \<Rightarrow> Z80Core" where
  "setState st m =
     (let m1 = (case st_registers st of
                  None \<Rightarrow> m
                | Some ra \<Rightarrow>
                    m\<lparr>registers :=
                        \<lparr>regs = (\<lambda>k. case arg_regs ra k of Some v \<Rightarrow> v | None \<Rightarrow> reg m k),
                         flags = (case arg_flags ra of Some r \<Rightarrow> r | None \<Rightarrow> flags (registers m)),
                         flags_prime = (case arg_flags_prime ra of
                                          Some r \<Rightarrow> r
                                        | None \<Rightarrow> flags_prime (registers m))\<rparr>\<rparr>);
          m2 = (case st_flags st of
                  None \<Rightarrow> m1
                | Some fa \<Rightarrow>
                    m1\<lparr>objects := (objects m1)(flags (registers m1) :=
                          (\<lambda>k. case fa k of Some v \<Rightarrow> v | None \<Rightarrow> flag m1 k))\<rparr>);
          m3 = (case st_pc st of None \<Rightarrow> m2 | Some v \<Rightarrow> set_reg pc_reg (js_and v 0xFFFF) m2);
          m4 = (case st_sp st of None \<Rightarrow> m3 | Some v \<Rightarrow> set_reg sp_reg (js_and v 0xFFFF) m3);
          m5 = (case st_halted st of None \<Rightarrow> m4 | Some v \<Rightarrow> m4\<lparr>halted := v\<rparr>);
          m6 = (case st_interruptsEnabled st of
                  None \<Rightarrow> m5
                | Some v \<Rightarrow> m5\<lparr>interruptsEnabled := v\<rparr>)
      in m6)"

text \<open>The empty argument \<^verbatim>\<open>{}\<close>.\<close>

definition no_state :: state_arg where
  "no_state =
     \<lparr>st_registers = None, st_flags = None, st_pc = None, st_sp = None,
      st_halted = None, st_interruptsEnabled = None\<rparr>"


section \<open>Register widths\<close>

text \<open>
  The register editor (\<^verbatim>\<open>RegisterEditor.jsx\<close>, \<^verbatim>\<open>handleRegisterChange\<close>) lists the keys
  \<^verbatim>\<open>ix, iy, sp, pc\<close> as 16-bit registers (0 to 65535) and every other numeric key as an 8-bit
  register (0 to 255).
\<close>

fun width :: "reg_key \<Rightarrow> nat" where
  "width ix_reg = 16"
| "width iy_reg = 16"
| "width sp_reg = 16"
| "width pc_reg = 16"
| "width _ = 8"

definition regs_in_range :: "Z80Core \<Rightarrow> bool" where
  "regs_in_range m \<longleftrightarrow> (\<forall>k. 0 \<le> reg m k \<and> reg m k < 2 ^ width k)"


section \<open>Facts about the operators\<close>

lemma js_and_mask: "n \<le> 31 \<Longrightarrow> js_and x (mask n) = take_bit n x"
  unfolding js_and_def ToInt32_def
  by (rule bit_eqI) (auto simp add: bit_simps min_def)

lemma js_and_FFFF: "js_and x 0xFFFF = x mod 65536"
  using js_and_mask[of 16 x] by (simp add: mask_eq_exp_minus_1 take_bit_eq_mod)

lemma js_and_FF: "js_and x 0xFF = x mod 256"
  using js_and_mask[of 8 x] by (simp add: mask_eq_exp_minus_1 take_bit_eq_mod)

lemma js_shr_8_FF: "js_and (js_shr x 8) 0xFF = x div 256 mod 256"
proof -
  have "js_and (js_shr x 8) (mask 8) = take_bit 8 (drop_bit 8 x)"
    unfolding js_and_def js_shr_def ToInt32_def
    by (rule bit_eqI) (auto simp add: bit_simps min_def)
  then show ?thesis
    by (simp add: mask_eq_exp_minus_1 take_bit_eq_mod drop_bit_eq_div)
qed

lemma js_shr_8_mod: "js_shr x 8 mod 256 = x div 256 mod 256"
  using js_shr_8_FF[of x] by (simp add: js_and_FF)

lemma js_or_shl_8:
  assumes "0 \<le> hi" "hi < 256" "0 \<le> lo" "lo < 256"
  shows "js_or (js_shl hi 8) lo = hi * 256 + lo"
proof -
  have hi: "take_bit 8 hi = hi" and lo: "take_bit 8 lo = lo"
    using assms by (simp_all add: take_bit_int_eq_self)
  have "js_or (js_shl (take_bit 8 hi) 8) (take_bit 8 lo) = push_bit 8 (take_bit 8 hi) OR take_bit 8 lo"
    unfolding js_or_def js_shl_def ToInt32_def
    by (rule bit_eqI) (auto simp add: bit_simps min_def)
  also have "\<dots> = push_bit 8 (take_bit 8 hi) + take_bit 8 lo"
    by (rule disjunctive_add[symmetric]) (auto simp add: bit_simps)
  finally show ?thesis
    by (simp add: hi lo push_bit_eq_mult)
qed

lemma word16_of_mod: "(word_of_int (a mod 65536) :: 16 word) = word_of_int a"
  by (simp add: word_of_int_eq_iff take_bit_eq_mod)

lemma word16_eq_iff: "(word_of_int a :: 16 word) = word_of_int b \<longleftrightarrow> a mod 65536 = b mod 65536"
  by (simp add: word_of_int_eq_iff take_bit_eq_mod)

lemma uint_byte_of_mod: "uint (word_of_int (v mod 256) :: 8 word) = v mod 256"
  by (simp add: uint_word_of_int take_bit_eq_mod)

lemma readByte_range: "0 \<le> readByte m a \<and> readByte m a < 256"
  unfolding readByte_def using uint_bounded[of "memory m (word_of_int (js_and a 0xFFFF))"] by simp

lemma readByte_writeByte:
  "readByte (writeByte a v m) b = (if a mod 65536 = b mod 65536 then v mod 256 else readByte m b)"
  by (simp add: readByte_def writeByte_def js_and_FF js_and_FFFF uint_byte_of_mod word16_of_mod word16_eq_iff)

lemma readByte_mod: "readByte m (a mod 65536) = readByte m a"
  by (simp add: readByte_def js_and_FFFF)

lemma succ_mod_neq: "(a + 1) mod 65536 \<noteq> (a::int) mod 65536"
  by (simp add: mod_eq_dvd_iff)

lemma bytes_to_word: "(v div 256 mod 256) * 256 + v mod 256 = (v::int) mod 65536"
  using zmod_zmult2_eq[of 256 v 256] by simp

lemma readWord_writeWord: "readWord (writeWord a v m) a = v mod 65536"
proof -
  let ?m' = "writeWord a v m"
  have lo: "readByte ?m' a = v mod 256"
    by (simp add: writeWord_def readByte_writeByte js_and_FF js_and_FFFF js_shr_8_mod succ_mod_neq)
  have hi: "readByte ?m' ((a + 1) mod 65536) = v div 256 mod 256"
    by (simp add: writeWord_def readByte_writeByte js_and_FF js_and_FFFF js_shr_8_mod)
  show ?thesis
    unfolding readWord_def Let_def js_and_FFFF lo hi
    by (simp add: js_or_shl_8 bytes_to_word)
qed

lemma reg_set_reg: "reg (set_reg k v m) k' = (if k' = k then v else reg m k')"
  by (simp add: reg_def set_reg_def)

lemma readByte_set_reg: "readByte (set_reg k v m) a = readByte m a"
  by (simp add: readByte_def set_reg_def)

lemma readWord_set_reg: "readWord (set_reg k v m) a = readWord m a"
  by (simp add: readWord_def readByte_set_reg)

lemma reg_writeByte: "reg (writeByte a v m) k = reg m k"
  by (simp add: reg_def writeByte_def)

lemma reg_writeWord: "reg (writeWord a v m) k = reg m k"
  by (simp add: writeWord_def reg_writeByte)

lemma readWord_mod: "readWord m (a mod 65536) = readWord m a"
  by (simp add: readWord_def readByte_mod js_and_FFFF mod_add_left_eq)

lemma writeWord_mod: "writeWord (a mod 65536) v m = writeWord a v m"
  by (simp add: writeWord_def writeByte_def js_and_FFFF mod_add_left_eq)

lemma popStack_pushStack:
  "fst (popStack (pushStack v m)) = v mod 65536
   \<and> reg (snd (popStack (pushStack v m))) sp_reg = reg m sp_reg mod 65536"
proof -
  let ?sp = "(reg m sp_reg - 2) mod 65536"
  have sp: "reg (pushStack v m) sp_reg = ?sp"
    by (simp add: pushStack_def Let_def reg_writeWord reg_set_reg js_and_FFFF)
  have "readWord (pushStack v m) ?sp = v mod 65536"
    by (simp add: pushStack_def Let_def reg_set_reg js_and_FFFF readWord_writeWord)
  moreover have "(?sp + 2) mod 65536 = reg m sp_reg mod 65536"
    by (simp add: mod_simps)
  ultimately show ?thesis
    by (simp add: popStack_def Let_def sp reg_set_reg js_and_FFFF)
qed


section \<open>Memory words and the stack\<close>

text \<open>
  Claim C7.  For every address \<open>a\<close> on which \<^verbatim>\<open>a + 1\<close> is exact and every value \<open>v\<close>,
  \<^verbatim>\<open>readWord(a)\<close> after \<^verbatim>\<open>writeWord(a, v)\<close> returns \<open>v mod 65536\<close>.  The word is stored
  little-endian: the cell \<open>a mod 65536\<close> holds the low byte and the cell \<open>(a + 1) mod 65536\<close>
  the high byte; at \<open>a = 0xFFFF\<close> the high byte is in cell \<open>0x0000\<close>.
\<close>

theorem writeWord_readWord_roundtrip:
  assumes "- (2 ^ 53) \<le> a" and "a < 2 ^ 53"
  shows "readWord (writeWord a v m) a = v mod 65536
   \<and> uint (memory (writeWord a v m) (word_of_int (a mod 65536))) = v mod 256
   \<and> uint (memory (writeWord a v m) (word_of_int ((a + 1) mod 65536))) = v div 256 mod 256
   \<and> uint (memory (writeWord 0xFFFF v m) 0) = v div 256 mod 256
   \<and> readWord (writeWord 0xFFFF v m) 0xFFFF = v mod 65536"
proof -
  have lo: "uint (memory (writeWord a v m) (word_of_int (a mod 65536))) = v mod 256"
    using succ_mod_neq[of a]
    by (simp add: writeWord_def writeByte_def js_and_FF js_and_FFFF js_shr_8_mod
        uint_byte_of_mod word16_of_mod word16_eq_iff)
  have hi: "uint (memory (writeWord a v m) (word_of_int ((a + 1) mod 65536))) = v div 256 mod 256" for a
    by (simp add: writeWord_def writeByte_def js_and_FF js_and_FFFF js_shr_8_mod
        uint_byte_of_mod word16_of_mod)
  from hi[of 65535] have hi0: "uint (memory (writeWord 0xFFFF v m) 0) = v div 256 mod 256"
    by simp
  show ?thesis
    using lo hi[of a] hi0 by (simp add: readWord_writeWord)
qed

theorem writeWord_readWord_roundtrip_witness:
  "readWord (writeWord 0xFFFF 0x1234 constructor) 0xFFFF = 0x1234
   \<and> readByte (writeWord 0xFFFF 0x1234 constructor) 0xFFFF = 0x34
   \<and> readByte (writeWord 0xFFFF 0x1234 constructor) 0x0000 = 0x12
   \<and> readWord (writeWord (-1) 0x12345 constructor) (-1) = 0x2345"
proof -
  have a: "readWord (writeWord 0xFFFF 0x1234 constructor) 0xFFFF = 0x1234 mod 65536"
    using writeWord_readWord_roundtrip[of "0xFFFF" "0x1234" constructor] by simp
  have b: "readWord (writeWord (-1) 0x12345 constructor) (-1) = 0x12345 mod 65536"
    using writeWord_readWord_roundtrip[of "-1" "0x12345" constructor] by simp
  have c: "readByte (writeWord 0xFFFF 0x1234 constructor) 0xFFFF = 0x34"
    "readByte (writeWord 0xFFFF 0x1234 constructor) 0x0000 = 0x12"
    by (simp_all add: writeWord_def readByte_writeByte js_and_FF js_and_FFFF js_shr_8_mod)
  show ?thesis
    using a b c by simp
qed

text \<open>
  Claim C9.  With SP a 16-bit value, \<^verbatim>\<open>pushStack(v)\<close> followed by \<^verbatim>\<open>popStack()\<close> returns
  \<open>v mod 65536\<close> and leaves SP at its value before the push, also where the decrement or
  the two-byte write wraps around (the witness has SP = 0 and SP = 1).
\<close>

theorem pushStack_popStack_roundtrip:
  assumes "0 \<le> reg m sp_reg" and "reg m sp_reg < 65536"
  shows "fst (popStack (pushStack v m)) = v mod 65536
     \<and> reg (snd (popStack (pushStack v m))) sp_reg = reg m sp_reg"
  using assms popStack_pushStack[of v m] by simp



theorem pushStack_popStack_roundtrip_witness:
  "fst (popStack (pushStack 0x1234 constructor)) = 0x1234
   \<and> reg (snd (popStack (pushStack 0x1234 constructor))) sp_reg = 0
   \<and> reg (pushStack 0x1234 constructor) sp_reg = 0xFFFE
   \<and> fst (popStack (pushStack 0x1ABCD (set_reg sp_reg 1 constructor))) = 0xABCD
   \<and> reg (snd (popStack (pushStack 0x1ABCD (set_reg sp_reg 1 constructor)))) sp_reg = 1
   \<and> readByte (pushStack 0x1ABCD (set_reg sp_reg 1 constructor)) 0xFFFF = 0xCD
   \<and> readByte (pushStack 0x1ABCD (set_reg sp_reg 1 constructor)) 0x0000 = 0xAB"
proof -
  have r0: "reg constructor sp_reg = 0"
    by (simp add: reg_def constructor_def)
  have r1: "reg (set_reg sp_reg 1 constructor) sp_reg = 1"
    by (simp add: reg_set_reg)
  have a: "reg (pushStack 0x1234 constructor) sp_reg = 0xFFFE"
    by (simp add: pushStack_def Let_def reg_writeWord reg_set_reg js_and_FFFF r0)
  have b: "readByte (pushStack 0x1ABCD (set_reg sp_reg 1 constructor)) 0xFFFF = 0xCD"
    by (simp add: pushStack_def Let_def writeWord_def reg_set_reg js_and_FFFF js_and_FF
        js_shr_8_mod readByte_writeByte)
  have c: "readByte (pushStack 0x1ABCD (set_reg sp_reg 1 constructor)) 0x0000 = 0xAB"
    by (simp add: pushStack_def Let_def writeWord_def reg_set_reg js_and_FFFF js_and_FF
        js_shr_8_mod readByte_writeByte)
  show ?thesis
    using pushStack_popStack_roundtrip[of constructor "0x1234"]
      pushStack_popStack_roundtrip[of "set_reg sp_reg 1 constructor" "0x1ABCD"]
    by (simp add: r0 r1 a b c)
qed


section \<open>Reset\<close>

text \<open>
  Claim C10.  \<^verbatim>\<open>reset()\<close> leaves every memory cell and the breakpoint set as they were
  (and the two debug switches): a loaded program and the breakpoints survive a reset.
\<close>

theorem reset_keeps_memory_and_breakpoints:
  "memory (reset m) = memory m
   \<and> breakpoints (reset m) = breakpoints m
   \<and> isDebugging (reset m) = isDebugging m
   \<and> stepMode (reset m) = stepMode m
   \<and> readByte (reset m) a = readByte m a"
  by (simp add: reset_def Let_def readByte_def)


section \<open>Single steps\<close>

lemma step_halted: "halted m \<Longrightarrow> step m = (False, m)"
  by (simp add: step_def)

lemma steps_halted: "halted m \<Longrightarrow> steps n m = m"
  by (induction n) (simp_all add: step_halted)

lemma step_running:
  "\<not> halted m \<Longrightarrow>
   step m = (True, executeInstruction (readByte m (reg m pc_reg))
                     (set_reg pc_reg ((reg m pc_reg + 1) mod 65536) m))"
  by (simp add: step_def Let_def js_and_FFFF)

lemma halted_set_reg: "halted (set_reg k v m) = halted m"
  by (simp add: set_reg_def)

text \<open>
  Claim C5.  From a state that is not halted, \<^verbatim>\<open>step()\<close> returns true; with the HALT opcode
  0x76 at PC it sets \<open>halted\<close>.  In a halted state every further \<^verbatim>\<open>step()\<close>, however many
  have gone before, returns false and leaves the whole state as it is.
\<close>

theorem step_HALT:
  "(halted m \<longrightarrow> (\<forall>n. step (steps n m) = (False, m)))
   \<and> (\<not> halted m \<longrightarrow>
        fst (step m)
        \<and> (readByte m (reg m pc_reg) = 0x76 \<longrightarrow>
              halted (snd (step m))
              \<and> (\<forall>n. step (steps n (snd (step m))) = (False, snd (step m)))))"
proof -
  have A: "step (steps n m') = (False, m')" if "halted m'" for m' n
    using that by (simp add: steps_halted step_halted)
  have B: "halted (snd (step m))" if "\<not> halted m" "readByte m (reg m pc_reg) = 0x76"
    using that by (simp add: step_running executeInstruction_def)
  show ?thesis
    using A B by (auto simp add: step_running)
qed

theorem step_HALT_witness:
  "\<not> halted (writeByte 0 0x76 constructor)
   \<and> readByte (writeByte 0 0x76 constructor) (reg (writeByte 0 0x76 constructor) pc_reg) = 0x76
   \<and> fst (step (writeByte 0 0x76 constructor))
   \<and> halted (snd (step (writeByte 0 0x76 constructor)))
   \<and> step (snd (step (writeByte 0 0x76 constructor)))
       = (False, snd (step (writeByte 0 0x76 constructor)))
   \<and> step (snd (step (snd (step (writeByte 0 0x76 constructor)))))
       = (False, snd (step (writeByte 0 0x76 constructor)))"
proof -
  let ?M = "writeByte 0 0x76 constructor"
  have h: "\<not> halted ?M"
    by (simp add: writeByte_def constructor_def)
  have pc: "reg ?M pc_reg = 0"
    by (simp add: reg_writeByte) (simp add: reg_def constructor_def)
  have op: "readByte ?M (reg ?M pc_reg) = 0x76"
    unfolding pc by (simp add: readByte_writeByte)
  from step_HALT[of ?M] h op
  have s: "fst (step ?M)" "halted (snd (step ?M))"
    and n: "\<And>n. step (steps n (snd (step ?M))) = (False, snd (step ?M))"
    by blast+
  from n[of 0] n[of 1] h op s show ?thesis
    by simp
qed

text \<open>
  Claim C8.  From a state that is not halted, with PC a Number on which \<^verbatim>\<open>pc + 1\<close> is exact
  (every 16-bit PC is), an opcode byte other than 0x00, 0x3E and 0x76 makes \<^verbatim>\<open>step()\<close>
  advance PC by one modulo 65536 and change nothing else: every other register, the flags
  objects, the memory and \<open>halted\<close> stay as they were.
\<close>

theorem step_unknown_opcode:
  assumes "\<not> halted m"
    and "- (2 ^ 53) \<le> reg m pc_reg" and "reg m pc_reg < 2 ^ 53"
    and "readByte m (reg m pc_reg) \<noteq> 0x00"
    and "readByte m (reg m pc_reg) \<noteq> 0x3E"
    and "readByte m (reg m pc_reg) \<noteq> 0x76"
  shows "step m = (True, set_reg pc_reg ((reg m pc_reg + 1) mod 65536) m)
         \<and> reg (snd (step m)) pc_reg = (reg m pc_reg + 1) mod 65536
         \<and> (\<forall>k. k \<noteq> pc_reg \<longrightarrow> reg (snd (step m)) k = reg m k)
         \<and> flags (registers (snd (step m))) = flags (registers m)
         \<and> flags_prime (registers (snd (step m))) = flags_prime (registers m)
         \<and> objects (snd (step m)) = objects m
         \<and> memory (snd (step m)) = memory m
         \<and> halted (snd (step m)) = halted m
         \<and> interruptsEnabled (snd (step m)) = interruptsEnabled m
         \<and> breakpoints (snd (step m)) = breakpoints m"
proof -
  have "step m = (True, set_reg pc_reg ((reg m pc_reg + 1) mod 65536) m)"
    using assms by (simp add: step_running executeInstruction_def)
  then show ?thesis
    by (simp add: reg_set_reg) (simp add: set_reg_def)
qed

theorem step_unknown_opcode_witness:
  "\<not> halted (set_reg pc_reg 0xFFFF (writeByte 0xFFFF 0xC3 constructor))
   \<and> readByte (set_reg pc_reg 0xFFFF (writeByte 0xFFFF 0xC3 constructor)) 0xFFFF = 0xC3
   \<and> step (set_reg pc_reg 0xFFFF (writeByte 0xFFFF 0xC3 constructor))
       = (True, set_reg pc_reg 0 (set_reg pc_reg 0xFFFF (writeByte 0xFFFF 0xC3 constructor)))
   \<and> reg (snd (step (set_reg pc_reg 0xFFFF (writeByte 0xFFFF 0xC3 constructor)))) pc_reg = 0
   \<and> reg (snd (step (set_reg pc_reg 0xFFFF (writeByte 0xFFFF 0xC3 constructor)))) a_reg = 0"
proof -
  let ?M = "set_reg pc_reg 0xFFFF (writeByte 0xFFFF 0xC3 constructor)"
  have h: "\<not> halted ?M"
    by (simp add: halted_set_reg) (simp add: writeByte_def constructor_def)
  have pc: "reg ?M pc_reg = 0xFFFF"
    by (simp add: reg_set_reg)
  have bound: "- (2 ^ 53) \<le> reg ?M pc_reg" "reg ?M pc_reg < 2 ^ 53"
    by (simp_all add: pc)
  have a: "reg ?M a_reg = 0"
    by (simp add: reg_set_reg reg_writeByte) (simp add: reg_def constructor_def)
  have op: "readByte ?M (reg ?M pc_reg) = 0xC3"
    unfolding pc by (simp add: readByte_set_reg readByte_writeByte)
  have ops: "readByte ?M (reg ?M pc_reg) \<noteq> 0x00" "readByte ?M (reg ?M pc_reg) \<noteq> 0x3E"
    "readByte ?M (reg ?M pc_reg) \<noteq> 0x76"
    by (simp_all add: op)
  have "step ?M = (True, set_reg pc_reg ((reg ?M pc_reg + 1) mod 65536) ?M)"
    using step_unknown_opcode[OF h bound ops] by (rule conjunct1)
  then have "step ?M = (True, set_reg pc_reg 0 ?M)"
    by (simp add: pc)
  with h op pc a show ?thesis
    by (simp add: reg_set_reg)
qed


section \<open>The F register\<close>

lemma ToInt32_id: "0 \<le> x \<Longrightarrow> x < 2 ^ 31 \<Longrightarrow> ToInt32 x = x"
  unfolding ToInt32_def by (simp add: signed_take_bit_int_eq_self)

text \<open>A single bit of a number, the way \<^verbatim>\<open>setF\<close> extracts it.\<close>

lemma js_test_bit:
  assumes "k < 31"
  shows "js_shr (js_and v (2 ^ k)) (int k) = of_bool (bit v k)"
proof -
  have k: "nat (int k mod 32) = k"
    using assms by simp
  show ?thesis
    unfolding js_shr_def js_and_def ToInt32_def k using assms
    by (intro bit_eqI) (auto simp add: bit_simps min_def)
qed

lemma js_and_1: "js_and v 1 = of_bool (bit v 0)"
  using js_and_mask[of 1 v] by (simp add: take_bit_Suc_from_most mod_2_eq_odd bit_0)



lemma js_shl_bool:
  assumes "k < 8"
  shows "js_shl (of_bool b) (int k) = push_bit k (of_bool b)"
proof -
  have k: "nat (int k mod 32) = k"
    using assms by simp
  show ?thesis
    unfolding js_shl_def ToInt32_def k using assms
    by (intro bit_eqI) (auto simp add: bit_simps min_def)
qed

lemma js_or_byte:
  assumes "take_bit 8 x = x" and "take_bit 8 y = y"
  shows "js_or x y = x OR y" and "take_bit 8 (x OR y) = x OR y"
proof -
  have "js_or (take_bit 8 x) (take_bit 8 y) = take_bit 8 x OR take_bit 8 y"
    unfolding js_or_def ToInt32_def
    by (intro bit_eqI) (auto simp add: bit_simps min_def)
  then show "js_or x y = x OR y"
    by (simp add: assms)
  show "take_bit 8 (x OR y) = x OR y"
    by (simp add: assms take_bit_or)
qed

lemma take_bit_8_push_bool: "k < 8 \<Longrightarrow> take_bit 8 (push_bit k (of_bool b) :: int) = push_bit k (of_bool b)"
  by (intro bit_eqI) (auto simp add: bit_simps)


lemma js_shl_bool_7: "js_shl (of_bool b) 7 = push_bit 7 (of_bool b)"
  using js_shl_bool[of 7 b] by simp

lemma js_shl_bool_6: "js_shl (of_bool b) 6 = push_bit 6 (of_bool b)"
  using js_shl_bool[of 6 b] by simp

lemma js_shl_bool_4: "js_shl (of_bool b) 4 = push_bit 4 (of_bool b)"
  using js_shl_bool[of 4 b] by simp

lemma js_shl_bool_2: "js_shl (of_bool b) 2 = push_bit 2 (of_bool b)"
  using js_shl_bool[of 2 b] by simp

lemma js_shl_bool_1: "js_shl (of_bool b) 1 = push_bit 1 (of_bool b)"
  using js_shl_bool[of 1 b] by simp

lemma take_bit_8_of_bool: "take_bit 8 (of_bool b :: int) = of_bool b"
  using take_bit_8_push_bool[of 0 b] by simp

lemma js_or_shl_flags:
  "js_or (js_or (js_or (js_or (js_or
       (js_shl (of_bool s) 7)
       (js_shl (of_bool z) 6))
       (js_shl (of_bool h) 4))
       (js_shl (of_bool pv) 2))
       (js_shl (of_bool n) 1))
       (of_bool c)
   = ((((push_bit 7 (of_bool s) OR push_bit 6 (of_bool z)) OR push_bit 4 (of_bool h))
      OR push_bit 2 (of_bool pv)) OR push_bit 1 (of_bool n)) OR of_bool c"
proof -
  have t7: "take_bit 8 (push_bit 7 (of_bool s) :: int) = push_bit 7 (of_bool s)"
    by (rule take_bit_8_push_bool) simp
  have t6: "take_bit 8 (push_bit 6 (of_bool z) :: int) = push_bit 6 (of_bool z)"
    by (rule take_bit_8_push_bool) simp
  have t4: "take_bit 8 (push_bit 4 (of_bool h) :: int) = push_bit 4 (of_bool h)"
    by (rule take_bit_8_push_bool) simp
  have t2: "take_bit 8 (push_bit 2 (of_bool pv) :: int) = push_bit 2 (of_bool pv)"
    by (rule take_bit_8_push_bool) simp
  have t1: "take_bit 8 (push_bit 1 (of_bool n) :: int) = push_bit 1 (of_bool n)"
    by (rule take_bit_8_push_bool) simp
  note o1 = js_or_byte[OF t7 t6]
  note o2 = js_or_byte[OF o1(2) t4]
  note o3 = js_or_byte[OF o2(2) t2]
  note o4 = js_or_byte[OF o3(2) t1]
  note o5 = js_or_byte[OF o4(2) take_bit_8_of_bool[of c]]
  show ?thesis
    unfolding js_shl_bool_7 js_shl_bool_6 js_shl_bool_4 js_shl_bool_2 js_shl_bool_1
    by (simp only: o1(1) o2(1) o3(1) o4(1) o5(1))
qed

lemma bit_packed_flags:
  fixes s z h pv n c :: bool
  defines "F \<equiv> (((((push_bit 7 (of_bool s) OR push_bit 6 (of_bool z)) OR push_bit 4 (of_bool h))
      OR push_bit 2 (of_bool pv)) OR push_bit 1 (of_bool n)) OR of_bool c :: int)"
  shows "bit F 7 = s" "bit F 6 = z" "bit F 4 = h" "bit F 2 = pv" "bit F 1 = n" "bit F 0 = c"
    "\<not> bit F 3" "\<not> bit F 5"
  unfolding F_def by (simp_all add: bit_simps)


lemma mask_D7: "(0xD7 :: int) = ((((push_bit 7 1 OR push_bit 6 1) OR push_bit 4 1)
     OR push_bit 2 1) OR push_bit 1 1) OR 1"
  by simp


lemma bit_push_bool: "bit (push_bit k (of_bool b) :: int) n \<longleftrightarrow> b \<and> n = k"
  by (auto simp add: bit_simps)

lemma bit_push_1: "bit (push_bit k 1 :: int) n \<longleftrightarrow> n = k"
  using bit_push_bool[of k True n] by simp

lemma bit_of_bool_int: "bit (of_bool b :: int) n \<longleftrightarrow> b \<and> n = 0"
  by (auto simp add: bit_simps)

lemma packed_bits_eq_and:
  "((((push_bit 7 (of_bool (bit v 7)) OR push_bit 6 (of_bool (bit v 6)))
      OR push_bit 4 (of_bool (bit v 4))) OR push_bit 2 (of_bool (bit v 2)))
      OR push_bit 1 (of_bool (bit v 1))) OR of_bool (bit v 0)
   = (v :: int) AND 0xD7" (is "?L = ?R")
proof (rule bit_eqI)
  fix n
  have R: "bit ?R n \<longleftrightarrow> bit v n \<and> (((((n = 7 \<or> n = 6) \<or> n = 4) \<or> n = 2) \<or> n = 1) \<or> n = 0)"
    unfolding mask_D7 by (simp only: bit_and_iff bit_or_iff bit_push_1 bit_1_iff)
  have L: "bit ?L n \<longleftrightarrow> (((((bit v 7 \<and> n = 7) \<or> (bit v 6 \<and> n = 6)) \<or> (bit v 4 \<and> n = 4))
      \<or> (bit v 2 \<and> n = 2)) \<or> (bit v 1 \<and> n = 1)) \<or> (bit v 0 \<and> n = 0)"
    by (simp only: bit_or_iff bit_push_bool bit_of_bool_int)
  show "bit ?L n = bit ?R n"
    unfolding L R by blast
qed


lemma flag_set_flag: "flag (set_flag k v m) k' = (if k' = k then v else flag m k')"
  by (simp add: flag_def set_flag_def)

lemma set_flag_same: "set_flag k (flag m k) m = m"
  by (simp add: flag_def set_flag_def)

lemma flag_setF:
  "flag (setF v m) s_flag = of_bool (bit v 7)"
  "flag (setF v m) z_flag = of_bool (bit v 6)"
  "flag (setF v m) h_flag = of_bool (bit v 4)"
  "flag (setF v m) pv_flag = of_bool (bit v 2)"
  "flag (setF v m) n_flag = of_bool (bit v 1)"
  "flag (setF v m) c_flag = of_bool (bit v 0)"
  using js_test_bit[of 7 v] js_test_bit[of 6 v] js_test_bit[of 4 v] js_test_bit[of 2 v]
    js_test_bit[of 1 v]
  by (simp_all add: setF_def flag_set_flag js_and_1)

lemma getF_of_bool:
  assumes "\<forall>k. flag m k \<in> {0, 1}"
  shows "getF m = ((((push_bit 7 (of_bool (flag m s_flag = 1))
                     OR push_bit 6 (of_bool (flag m z_flag = 1)))
                     OR push_bit 4 (of_bool (flag m h_flag = 1)))
                     OR push_bit 2 (of_bool (flag m pv_flag = 1)))
                     OR push_bit 1 (of_bool (flag m n_flag = 1)))
                     OR of_bool (flag m c_flag = 1)"
proof -
  have b: "flag m k = of_bool (flag m k = 1)" for k
    using assms[rule_format, of k] by auto
  have "getF m = js_or (js_or (js_or (js_or (js_or
       (js_shl (of_bool (flag m s_flag = 1)) 7)
       (js_shl (of_bool (flag m z_flag = 1)) 6))
       (js_shl (of_bool (flag m h_flag = 1)) 4))
       (js_shl (of_bool (flag m pv_flag = 1)) 2))
       (js_shl (of_bool (flag m n_flag = 1)) 1))
       (of_bool (flag m c_flag = 1))"
    unfolding getF_def
    using b[of s_flag] b[of z_flag] b[of h_flag] b[of pv_flag] b[of n_flag] b[of c_flag]
    by presburger
  then show ?thesis
    by (simp only: js_or_shl_flags)
qed

lemma setF_getF:
  assumes "\<forall>k. flag m k \<in> {0, 1}"
  shows "setF (getF m) m = m"
proof -
  have b: "of_bool (flag m k = 1) = flag m k" for k
    using assms[rule_format, of k] by auto
  note G = getF_of_bool[OF assms]
  have bits: "bit (getF m) 7 = (flag m s_flag = 1)" "bit (getF m) 6 = (flag m z_flag = 1)"
    "bit (getF m) 4 = (flag m h_flag = 1)" "bit (getF m) 2 = (flag m pv_flag = 1)"
    "bit (getF m) 1 = (flag m n_flag = 1)" "bit (getF m) 0 = (flag m c_flag = 1)"
    by (simp_all only: G bit_packed_flags)
  have v: "js_shr (js_and (getF m) 0x80) 7 = flag m s_flag"
    "js_shr (js_and (getF m) 0x40) 6 = flag m z_flag"
    "js_shr (js_and (getF m) 0x10) 4 = flag m h_flag"
    "js_shr (js_and (getF m) 0x04) 2 = flag m pv_flag"
    "js_shr (js_and (getF m) 0x02) 1 = flag m n_flag"
    "js_and (getF m) 0x01 = flag m c_flag"
    using js_test_bit[of 7 "getF m"] js_test_bit[of 6 "getF m"] js_test_bit[of 4 "getF m"]
      js_test_bit[of 2 "getF m"] js_test_bit[of 1 "getF m"] js_and_1[of "getF m"]
    by (simp_all add: bits bits(5)[unfolded One_nat_def] b)
  show ?thesis
    unfolding setF_def v
    by (simp add: set_flag_def flag_def)
qed


lemma flag_setF_bit: "flag (setF v m) k \<in> {0, 1}"
  by (cases k) (simp_all add: flag_setF)

lemma getF_setF: "getF (setF v m) = v AND 0xD7"
proof -
  have "\<forall>k. flag (setF v m) k \<in> {0, 1}"
    by (simp only: flag_setF_bit simp_thms)
  from getF_of_bool[OF this] show ?thesis
    by (simp only: flag_setF of_bool_eq_1_iff packed_bits_eq_and)
qed

text \<open>
  Claim C6.  When every flag is 0 or 1, \<^verbatim>\<open>setF(getF())\<close> leaves the state as it is.  For
  every number \<open>b\<close> (every byte among them), \<^verbatim>\<open>getF()\<close> after \<^verbatim>\<open>setF(b)\<close> is \<open>b\<close> restricted to
  the bits 7, 6, 4, 2, 1 and 0, which hold S, Z, H, P/V, N and C; the bits 3 and 5 of
  \<^verbatim>\<open>getF()\<close> read 0.
\<close>

theorem getF_setF_roundtrip:
  "((\<forall>k. flag m k \<in> {0, 1}) \<longrightarrow>
       setF (getF m) m = m \<and> \<not> bit (getF m) 3 \<and> \<not> bit (getF m) 5)
   \<and> getF (setF b m) = b AND 0xD7
   \<and> \<not> bit (getF (setF b m)) 3 \<and> \<not> bit (getF (setF b m)) 5
   \<and> flag (setF b m) s_flag = of_bool (bit b 7)
   \<and> flag (setF b m) z_flag = of_bool (bit b 6)
   \<and> flag (setF b m) h_flag = of_bool (bit b 4)
   \<and> flag (setF b m) pv_flag = of_bool (bit b 2)
   \<and> flag (setF b m) n_flag = of_bool (bit b 1)
   \<and> flag (setF b m) c_flag = of_bool (bit b 0)"
proof -
  have unused: "\<not> bit (getF m') 3 \<and> \<not> bit (getF m') 5" if "\<forall>k. flag m' k \<in> {0, 1}" for m'
    by (simp only: getF_of_bool[OF that] bit_packed_flags simp_thms)
  have "\<forall>k. flag (setF b m) k \<in> {0, 1}"
    by (simp only: flag_setF_bit simp_thms)
  from unused[OF this] have after: "\<not> bit (getF (setF b m)) 3 \<and> \<not> bit (getF (setF b m)) 5" .
  have before: "(\<forall>k. flag m k \<in> {0, 1}) \<longrightarrow>
       setF (getF m) m = m \<and> \<not> bit (getF m) 3 \<and> \<not> bit (getF m) 5"
    using setF_getF[of m] unused[of m] by blast
  show ?thesis
    using before after by (simp only: getF_setF flag_setF simp_thms)
qed

theorem getF_setF_roundtrip_witness:
  "getF (setF 0xFF constructor) = 0xD7
   \<and> setF (getF (setF 0xFF constructor)) (setF 0xFF constructor) = setF 0xFF constructor
   \<and> getF (setF 0x28 constructor) = 0
   \<and> flag (setF 0x41 constructor) z_flag = 1
   \<and> flag (setF 0x41 constructor) c_flag = 1
   \<and> flag (setF 0x41 constructor) s_flag = 0"
proof -
  have bits: "\<forall>k. flag (setF 0xFF constructor) k \<in> {0, 1}"
    by (simp only: flag_setF_bit simp_thms)
  have 1: "setF (getF (setF 0xFF constructor)) (setF 0xFF constructor) = setF 0xFF constructor"
    using getF_setF_roundtrip[of "setF 0xFF constructor" 0] bits by blast
  have 2: "getF (setF 0xFF constructor) = 0xFF AND 0xD7"
    using getF_setF_roundtrip[of constructor "0xFF"] by blast
  have 3: "getF (setF 0x28 constructor) = 0x28 AND 0xD7"
    using getF_setF_roundtrip[of constructor "0x28"] by blast
  have 4: "flag (setF 0x41 constructor) z_flag = of_bool (bit (0x41 :: int) 6)"
    "flag (setF 0x41 constructor) c_flag = of_bool (bit (0x41 :: int) 0)"
    "flag (setF 0x41 constructor) s_flag = of_bool (bit (0x41 :: int) 7)"
    using getF_setF_roundtrip[of constructor "0x41"] by blast+
  have 5: "getF (setF 0xFF constructor) = 0xD7" "getF (setF 0x28 constructor) = 0"
    unfolding 2 3 by simp_all
  show ?thesis
    unfolding 4 using 1 5 by simp
qed


section \<open>Running to a breakpoint\<close>

lemma run_loop_halted: "halted m \<Longrightarrow> run_loop m = Some m"
  by (subst run_loop.simps) simp

lemma run_loop_breakpoint:
  "\<not> halted m \<Longrightarrow> reg m pc_reg \<in> breakpoints m \<Longrightarrow> run_loop m = Some (m\<lparr>isDebugging := True\<rparr>)"
  by (subst run_loop.simps) simp

lemma run_loop_step:
  "\<not> halted m \<Longrightarrow> reg m pc_reg \<notin> breakpoints m \<Longrightarrow> run_loop m = run_loop (snd (step m))"
  by (subst run_loop.simps) simp

text \<open>The loop makes \<open>k\<close> calls of \<^verbatim>\<open>step\<close> when its exit test fails \<open>k\<close> times.\<close>

lemma run_loop_steps:
  "(\<forall>j<k. \<not> halted (steps j m) \<and> reg (steps j m) pc_reg \<notin> breakpoints (steps j m))
   \<Longrightarrow> run_loop m = run_loop (steps k m)"
proof (induction k arbitrary: m)
  case 0
  show ?case by simp
next
  case (Suc k)
  from Suc.prems[rule_format, of 0]
  have first: "run_loop m = run_loop (snd (step m))"
    by (simp add: run_loop_step)
  have "\<forall>j<k. \<not> halted (steps j (snd (step m)))
           \<and> reg (steps j (snd (step m))) pc_reg \<notin> breakpoints (steps j (snd (step m)))"
    using Suc.prems by (metis Suc_less_eq steps.simps(2))
  from Suc.IH[OF this] first show ?case
    by simp
qed

lemma step_NOP:
  "\<not> halted m \<Longrightarrow> readByte m (reg m pc_reg) = 0x00 \<Longrightarrow>
   step m = (True, set_reg pc_reg ((reg m pc_reg + 1) mod 65536) m)"
  by (simp add: step_running executeInstruction_def)

lemma set_reg_set_reg: "set_reg k v (set_reg k w m) = set_reg k v m"
  by (simp add: set_reg_def)

lemma set_reg_same: "reg m k = v \<Longrightarrow> set_reg k v m = m"
  by (auto simp add: set_reg_def reg_def)

lemma breakpoints_set_reg: "breakpoints (set_reg k v m) = breakpoints m"
  by (simp add: set_reg_def)

lemma reset_facts:
  "\<not> halted (reset m)" "reg (reset m) pc_reg = 0" "reg (reset m) sp_reg = 0xFFFF"
  "breakpoints (reset m) = breakpoints m" "readByte (reset m) a = readByte m a"
  by (simp_all add: reset_def Let_def reg_def readByte_def)

lemma isDebugging_update_facts:
  "halted (m\<lparr>isDebugging := d\<rparr>) = halted m"
  "reg (m\<lparr>isDebugging := d\<rparr>) k = reg m k"
  "breakpoints (m\<lparr>isDebugging := d\<rparr>) = breakpoints m"
  "readByte (m\<lparr>isDebugging := d\<rparr>) a = readByte m a"
  "set_reg k v (m\<lparr>isDebugging := d\<rparr>) = (set_reg k v m)\<lparr>isDebugging := d\<rparr>"
  by (simp_all add: reg_def readByte_def set_reg_def)

lemma step_NOP_at:
  assumes "\<not> halted m" and "readByte m p = 0x00"
  shows "step (set_reg pc_reg p m) = (True, set_reg pc_reg ((p + 1) mod 65536) m)"
  using assms
  by (simp add: step_NOP halted_set_reg reg_set_reg readByte_set_reg set_reg_set_reg)

lemma setBreakpoint_facts:
  "halted (setBreakpoint a m) = halted m"
  "reg (setBreakpoint a m) k = reg m k"
  "readByte (setBreakpoint a m) x = readByte m x"
  "breakpoints (setBreakpoint a m) = insert (a mod 65536) (breakpoints m)"
  by (simp_all add: setBreakpoint_def reg_def readByte_def js_and_FFFF)

lemma writeByte_facts:
  "halted (writeByte a v m) = halted m"
  "breakpoints (writeByte a v m) = breakpoints m"
  by (simp_all add: writeByte_def)

lemma constructor_facts:
  "\<not> halted constructor" "reg constructor k = 0" "readByte constructor a = 0"
  "breakpoints constructor = {}"
  by (simp_all add: constructor_def reg_def readByte_def)

text \<open>
  Claim C4.  Memory holds NOP (0x00) at 0x0000 to 0x0003 and HALT (0x76) at 0x0004, and
  0x0004 is a breakpoint while 0x0000 to 0x0003 are not.  After \<^verbatim>\<open>reset()\<close>, \<^verbatim>\<open>run()\<close> returns;
  its loop has made exactly four calls of \<^verbatim>\<open>step()\<close>, each of which executed an instruction
  (returned true), and it stops with PC = 0x0004 and \<open>halted\<close> false: the HALT at the
  breakpoint is not executed.  The state it leaves is the reset state with PC = 4 and
  \<open>isDebugging\<close> set.
\<close>

theorem run_four_NOPs:
  assumes nops: "readByte m 0 = 0x00" "readByte m 1 = 0x00" "readByte m 2 = 0x00"
      "readByte m 3 = 0x00"
    and halt: "readByte m 4 = 0x76"
    and bp: "4 \<in> breakpoints m"
    and nbp: "0 \<notin> breakpoints m" "1 \<notin> breakpoints m" "2 \<notin> breakpoints m"
      "3 \<notin> breakpoints m"
  shows "run (reset m) = Some ((steps 4 ((reset m)\<lparr>isDebugging := False\<rparr>))\<lparr>isDebugging := True\<rparr>)
     \<and> steps 4 ((reset m)\<lparr>isDebugging := False\<rparr>)
         = set_reg pc_reg 4 ((reset m)\<lparr>isDebugging := False\<rparr>)
     \<and> fst (step (steps 0 ((reset m)\<lparr>isDebugging := False\<rparr>)))
     \<and> fst (step (steps 1 ((reset m)\<lparr>isDebugging := False\<rparr>)))
     \<and> fst (step (steps 2 ((reset m)\<lparr>isDebugging := False\<rparr>)))
     \<and> fst (step (steps 3 ((reset m)\<lparr>isDebugging := False\<rparr>)))
     \<and> run (reset m) = Some (set_reg pc_reg 4 ((reset m)\<lparr>isDebugging := True\<rparr>))
     \<and> reg (set_reg pc_reg 4 ((reset m)\<lparr>isDebugging := True\<rparr>)) pc_reg = 4
     \<and> \<not> halted (set_reg pc_reg 4 ((reset m)\<lparr>isDebugging := True\<rparr>))"
proof -
  let ?m0 = "(reset m)\<lparr>isDebugging := False\<rparr>"
  have h: "\<not> halted ?m0"
    by (simp add: isDebugging_update_facts reset_facts)
  have rd: "readByte ?m0 a = readByte m a" for a
    by (simp add: isDebugging_update_facts reset_facts)
  have m0: "?m0 = set_reg pc_reg 0 ?m0"
    by (rule set_reg_same[symmetric]) (simp add: isDebugging_update_facts reset_facts)
  have st0: "step ?m0 = (True, set_reg pc_reg 1 ?m0)"
    using step_NOP_at[of ?m0 0] h nops(1) m0 by (simp add: rd)
  have st1: "step (set_reg pc_reg 1 ?m0) = (True, set_reg pc_reg 2 ?m0)"
    using step_NOP_at[of ?m0 1] h nops(2) by (simp add: rd)
  have st2: "step (set_reg pc_reg 2 ?m0) = (True, set_reg pc_reg 3 ?m0)"
    using step_NOP_at[of ?m0 2] h nops(3) by (simp add: rd)
  have st3: "step (set_reg pc_reg 3 ?m0) = (True, set_reg pc_reg 4 ?m0)"
    using step_NOP_at[of ?m0 3] h nops(4) by (simp add: rd)
  have s0: "steps 0 ?m0 = ?m0"
    by simp
  have s1: "steps 1 ?m0 = set_reg pc_reg 1 ?m0"
    by (simp add: st0)
  have s2: "steps 2 ?m0 = set_reg pc_reg 2 ?m0"
    by (simp add: numeral_2_eq_2 st0 st1)
  have s3: "steps 3 ?m0 = set_reg pc_reg 3 ?m0"
    by (simp add: numeral_3_eq_3 st0 st1 st2)
  have s4: "steps 4 ?m0 = set_reg pc_reg 4 ?m0"
    by (simp add: numeral_eq_Suc st0 st1 st2 st3)
  have pc0: "reg ?m0 pc_reg = 0"
    by (simp add: isDebugging_update_facts reset_facts)
  have bps: "breakpoints ?m0 = breakpoints m"
    by (simp add: isDebugging_update_facts reset_facts)
  have "\<forall>j<4. \<not> halted (steps j ?m0) \<and> reg (steps j ?m0) pc_reg \<notin> breakpoints (steps j ?m0)"
  proof (intro allI impI)
    fix j :: nat assume "j < 4"
    then consider "j = 0" | "j = 1" | "j = 2" | "j = 3"
      by linarith
    then show "\<not> halted (steps j ?m0) \<and> reg (steps j ?m0) pc_reg \<notin> breakpoints (steps j ?m0)"
      using h nbp
      by cases (simp_all only: s0 s1 s2 s3 pc0 bps halted_set_reg reg_set_reg breakpoints_set_reg
          if_True simp_thms)
  qed
  from run_loop_steps[OF this]
  have "run_loop ?m0 = run_loop (set_reg pc_reg 4 ?m0)"
    by (simp only: s4)
  also have "\<dots> = Some ((set_reg pc_reg 4 ?m0)\<lparr>isDebugging := True\<rparr>)"
    using h bp
    by (intro run_loop_breakpoint) (simp_all add: halted_set_reg reg_set_reg breakpoints_set_reg bps)
  finally have r: "run (reset m) = Some ((set_reg pc_reg 4 ?m0)\<lparr>isDebugging := True\<rparr>)"
    by (simp add: run_def)
  have fin: "(set_reg pc_reg 4 ?m0)\<lparr>isDebugging := True\<rparr>
      = set_reg pc_reg 4 ((reset m)\<lparr>isDebugging := True\<rparr>)"
    by (simp add: set_reg_def)
  have nh: "\<not> halted (set_reg pc_reg 4 ((reset m)\<lparr>isDebugging := True\<rparr>))"
    by (simp add: halted_set_reg isDebugging_update_facts reset_facts)
  show ?thesis
    unfolding s0 s1 s2 s3 s4 st0 st1 st2 st3
    using r fin nh by (simp add: reg_set_reg)
qed

theorem run_four_NOPs_witness:
  "run (reset (setBreakpoint 4 (loadProgram [0x00, 0x00, 0x00, 0x00, 0x76] 0 constructor)))
     = Some (set_reg pc_reg 4
         ((reset (setBreakpoint 4 (loadProgram [0x00, 0x00, 0x00, 0x00, 0x76] 0 constructor)))
            \<lparr>isDebugging := True\<rparr>))
   \<and> readByte (setBreakpoint 4 (loadProgram [0x00, 0x00, 0x00, 0x00, 0x76] 0 constructor)) 3 = 0x00
   \<and> readByte (setBreakpoint 4 (loadProgram [0x00, 0x00, 0x00, 0x00, 0x76] 0 constructor)) 4 = 0x76
   \<and> breakpoints (setBreakpoint 4 (loadProgram [0x00, 0x00, 0x00, 0x00, 0x76] 0 constructor)) = {4}"
proof -
  let ?M = "setBreakpoint 4 (loadProgram [0x00, 0x00, 0x00, 0x00, 0x76] 0 constructor)"
  have rd: "readByte ?M 0 = 0x00" "readByte ?M 1 = 0x00" "readByte ?M 2 = 0x00"
    "readByte ?M 3 = 0x00" "readByte ?M 4 = 0x76"
    by (simp_all add: setBreakpoint_facts loadProgram_def readByte_writeByte constructor_facts)
  have bp: "breakpoints ?M = {4}"
    by (simp add: setBreakpoint_facts loadProgram_def writeByte_facts constructor_facts)
  have bps: "4 \<in> breakpoints ?M" "0 \<notin> breakpoints ?M" "1 \<notin> breakpoints ?M"
    "2 \<notin> breakpoints ?M" "3 \<notin> breakpoints ?M"
    by (simp_all add: bp)
  have "run (reset ?M) = Some (set_reg pc_reg 4 ((reset ?M)\<lparr>isDebugging := True\<rparr>))"
    using run_four_NOPs[OF rd bps] by (elim conjE)
  then show ?thesis
    using rd bp by simp
qed

text \<open>What a call of \<^verbatim>\<open>step()\<close> does to PC in a state that is not halted.\<close>

lemma reg_pc_step:
  assumes "\<not> halted m"
  shows "reg (snd (step m)) pc_reg =
     (if readByte m (reg m pc_reg) = 0x3E then ((reg m pc_reg + 1) mod 65536 + 1) mod 65536
      else (reg m pc_reg + 1) mod 65536)"
  using assms
  by (simp add: step_running executeInstruction_def Let_def reg_set_reg js_and_FFFF)
    (simp add: reg_def set_reg_def)

lemma step_moves_pc:
  assumes "\<not> halted m"
  shows "reg (snd (step m)) pc_reg \<noteq> reg m pc_reg"
proof (cases "0 \<le> reg m pc_reg \<and> reg m pc_reg < 65536")
  case True
  then have p: "reg m pc_reg mod 65536 = reg m pc_reg"
    by simp
  have one: "(reg m pc_reg + 1) mod 65536 \<noteq> reg m pc_reg mod 65536"
    by (simp add: mod_eq_dvd_iff)
  have two: "((reg m pc_reg + 1) mod 65536 + 1) mod 65536 \<noteq> reg m pc_reg mod 65536"
    by (simp add: mod_simps mod_eq_dvd_iff)
  from one two show ?thesis
    unfolding reg_pc_step[OF assms] p by simp
next
  case False
  have r: "0 \<le> reg (snd (step m)) pc_reg \<and> reg (snd (step m)) pc_reg < 65536"
    unfolding reg_pc_step[OF assms] by simp
  with False show ?thesis
    by auto
qed

text \<open>
  Claim C3, as the code has it.  When the machine is not halted and PC is in the breakpoint
  set at the call of \<^verbatim>\<open>run()\<close>, the loop tests the breakpoint on its first iteration too:
  \<^verbatim>\<open>run()\<close> returns at once, no instruction is executed, and the state is unchanged
  but for \<open>isDebugging\<close>, which is set.  Getting past the breakpoint takes a \<^verbatim>\<open>step()\<close>:
  in the same state (with PC a Number on which \<^verbatim>\<open>pc + 1\<close> is exact) \<^verbatim>\<open>step()\<close> executes the
  instruction, returns true and leaves PC at another address, one or two bytes on modulo
  65536.
\<close>

theorem run_at_breakpoint:
  assumes "\<not> halted m" and "reg m pc_reg \<in> breakpoints m"
  shows "run m = Some (m\<lparr>isDebugging := True\<rparr>)
     \<and> (- (2 ^ 53) \<le> reg m pc_reg \<and> reg m pc_reg < 2 ^ 53 \<longrightarrow>
          fst (step m)
          \<and> reg (snd (step m)) pc_reg \<noteq> reg m pc_reg
          \<and> reg (snd (step m)) pc_reg =
              (if readByte m (reg m pc_reg) = 0x3E then (reg m pc_reg + 2) mod 65536
               else (reg m pc_reg + 1) mod 65536))"
proof -
  have "run m = Some (m\<lparr>isDebugging := True\<rparr>)"
    using assms by (simp add: run_def run_loop_breakpoint reg_def)
  moreover have "fst (step m)"
    using assms(1) by (simp add: step_running)
  moreover have "((reg m pc_reg + 1) mod 65536 + 1) mod 65536 = (reg m pc_reg + 2) mod 65536"
    by (simp add: mod_simps add.commute)
  ultimately show ?thesis
    using step_moves_pc[OF assms(1)] reg_pc_step[OF assms(1)] by simp
qed


theorem run_at_breakpoint_witness:
  "\<not> halted (setBreakpoint 0 (writeByte 0 0x76 constructor))
   \<and> reg (setBreakpoint 0 (writeByte 0 0x76 constructor)) pc_reg
       \<in> breakpoints (setBreakpoint 0 (writeByte 0 0x76 constructor))
   \<and> run (setBreakpoint 0 (writeByte 0 0x76 constructor))
       = Some ((setBreakpoint 0 (writeByte 0 0x76 constructor))\<lparr>isDebugging := True\<rparr>)
   \<and> fst (step (setBreakpoint 0 (writeByte 0 0x76 constructor)))
   \<and> reg (setBreakpoint 0 (writeByte 0 0x76 constructor)) pc_reg = 0
   \<and> reg (snd (step (setBreakpoint 0 (writeByte 0 0x76 constructor)))) pc_reg = 1"
proof -
  let ?M = "setBreakpoint 0 (writeByte 0 0x76 constructor)"
  have h: "\<not> halted ?M"
    by (simp add: setBreakpoint_facts writeByte_facts constructor_facts)
  have pc: "reg ?M pc_reg = 0"
    by (simp add: setBreakpoint_facts reg_writeByte constructor_facts)
  have b: "reg ?M pc_reg \<in> breakpoints ?M"
    by (simp add: setBreakpoint_facts reg_writeByte constructor_facts)
  have op: "readByte ?M 0 = 0x76"
    by (simp add: setBreakpoint_facts readByte_writeByte)
  have bound: "- (2 ^ 53) \<le> reg ?M pc_reg \<and> reg ?M pc_reg < 2 ^ 53"
    by (simp add: pc)
  note th = run_at_breakpoint[OF h b]
  from th have r: "run ?M = Some (?M\<lparr>isDebugging := True\<rparr>)"
    by (rule conjunct1)
  from th bound have "fst (step ?M)"
    and "reg (snd (step ?M)) pc_reg =
      (if readByte ?M (reg ?M pc_reg) = 0x3E then (reg ?M pc_reg + 2) mod 65536
       else (reg ?M pc_reg + 1) mod 65536)"
    by blast+
  then have "fst (step ?M)" and "reg (snd (step ?M)) pc_reg = 1"
    by (simp_all add: pc op)
  with h b r pc show ?thesis
    by simp
qed

text \<open>
  The reading of C3 under which the first iteration executes the instruction at PC without
  the test fails: with HALT at 0x0000, PC = 0 and a breakpoint at 0x0000, executing the
  instruction would halt the machine with PC = 1, whereas \<^verbatim>\<open>run()\<close> returns with \<open>halted\<close>
  false and PC = 0.
\<close>

theorem run_first_iteration_counterexample:
  "\<not> halted (setBreakpoint 0 (writeByte 0 0x76 constructor))
   \<and> reg (setBreakpoint 0 (writeByte 0 0x76 constructor)) pc_reg = 0
   \<and> 0 \<in> breakpoints (setBreakpoint 0 (writeByte 0 0x76 constructor))
   \<and> readByte (setBreakpoint 0 (writeByte 0 0x76 constructor)) 0 = 0x76
   \<and> halted (snd (step (setBreakpoint 0 (writeByte 0 0x76 constructor))))
   \<and> reg (snd (step (setBreakpoint 0 (writeByte 0 0x76 constructor)))) pc_reg = 1
   \<and> run (setBreakpoint 0 (writeByte 0 0x76 constructor))
       = Some ((setBreakpoint 0 (writeByte 0 0x76 constructor))\<lparr>isDebugging := True\<rparr>)
   \<and> \<not> halted ((setBreakpoint 0 (writeByte 0 0x76 constructor))\<lparr>isDebugging := True\<rparr>)
   \<and> reg ((setBreakpoint 0 (writeByte 0 0x76 constructor))\<lparr>isDebugging := True\<rparr>) pc_reg = 0
   \<and> run (setBreakpoint 0 (writeByte 0 0x76 constructor))
       \<noteq> run_loop (snd (step ((setBreakpoint 0 (writeByte 0 0x76 constructor))
                                  \<lparr>isDebugging := False\<rparr>)))"
proof -
  let ?M = "setBreakpoint 0 (writeByte 0 0x76 constructor)"
  have h: "\<not> halted ?M"
    by (simp add: setBreakpoint_facts writeByte_facts constructor_facts)
  have pc: "reg ?M pc_reg = 0"
    by (simp add: setBreakpoint_facts reg_writeByte constructor_facts)
  have b: "0 \<in> breakpoints ?M"
    by (simp add: setBreakpoint_facts)
  have op: "readByte ?M 0 = 0x76"
    by (simp add: setBreakpoint_facts readByte_writeByte)
  have st: "step ?M = (True, (set_reg pc_reg 1 ?M)\<lparr>halted := True\<rparr>)"
    using h op by (simp add: step_running pc executeInstruction_def)
  have r: "run ?M = Some (?M\<lparr>isDebugging := True\<rparr>)"
    using h b by (simp add: run_def run_loop_breakpoint isDebugging_update_facts pc)
  have st': "step (?M\<lparr>isDebugging := False\<rparr>)
      = (True, (set_reg pc_reg 1 (?M\<lparr>isDebugging := False\<rparr>))\<lparr>halted := True\<rparr>)"
    using h op by (simp add: step_running isDebugging_update_facts pc executeInstruction_def)
  have "run_loop (snd (step (?M\<lparr>isDebugging := False\<rparr>)))
      = Some ((set_reg pc_reg 1 (?M\<lparr>isDebugging := False\<rparr>))\<lparr>halted := True\<rparr>)"
    unfolding st' by (simp add: run_loop_halted)
  moreover have "halted m1 \<Longrightarrow> \<not> halted m2 \<Longrightarrow> Some m2 \<noteq> Some m1" for m1 m2 :: Z80Core
    by auto
  ultimately have ne: "run ?M \<noteq> run_loop (snd (step (?M\<lparr>isDebugging := False\<rparr>)))"
    unfolding r using h by (simp add: isDebugging_update_facts)
  have pc1: "reg (snd (step ?M)) pc_reg = 1" and h1: "halted (snd (step ?M))"
    unfolding st by (simp_all add: reg_def set_reg_def)
  show ?thesis
    using h pc b op r ne pc1 h1 by (simp add: isDebugging_update_facts)
qed


section \<open>Snapshots and state restore\<close>

text \<open>
  An assignment to a field of the snapshot other than a field of \<^verbatim>\<open>registers.flags\<close> or
  \<^verbatim>\<open>registers.flags_prime\<close> leaves the engine as it is.
\<close>

lemma assign_other_fields:
  "snd (assign (Set_registers k v) (sn, m)) = m"
  "snd (assign (Set_pc v) (sn, m)) = m"
  "snd (assign (Set_sp v) (sn, m)) = m"
  "snd (assign (Set_flags fk v) (sn, m)) = m"
  "snd (assign (Set_halted bv) (sn, m)) = m"
  "snd (assign (Set_interruptsEnabled bv) (sn, m)) = m"
  by simp_all

text \<open>
  Claim C1.  The snapshot of \<^verbatim>\<open>getState()\<close> is not independent of the engine in its nested
  flags objects: \<^verbatim>\<open>snapshot.registers.flags\<close> and \<^verbatim>\<open>snapshot.registers.flags_prime\<close> are the
  engine's own objects.  On a new engine, \<^verbatim>\<open>getState().registers.flags.z = 1\<close> sets the
  engine's Z flag, and \<^verbatim>\<open>getState().registers.flags_prime.n = 1\<close> sets its shadow N flag.
\<close>

theorem getState_shares_flags_objects:
  "flag constructor z_flag = 0
   \<and> flag (snd (assign (Set_registers_flags z_flag 1) (getState constructor, constructor))) z_flag = 1
   \<and> objects constructor (flags_prime (registers constructor)) n_flag = 0
   \<and> objects (snd (assign (Set_registers_flags_prime n_flag 1) (getState constructor, constructor)))
         (flags_prime (registers constructor)) n_flag = 1
   \<and> snd (assign (Set_registers_flags z_flag 1) (getState constructor, constructor)) \<noteq> constructor"
proof -
  have a: "flag (snd (assign (Set_registers_flags z_flag 1) (getState constructor, constructor))) z_flag = 1"
    by (simp add: getState_def constructor_def flag_def Let_def)
  have b: "flag constructor z_flag = 0"
    by (simp add: constructor_def flag_def)
  from a b have "snd (assign (Set_registers_flags z_flag 1) (getState constructor, constructor)) \<noteq> constructor"
    by (metis zero_neq_one)
  then show ?thesis
    using a b by (simp add: getState_def constructor_def Let_def)
qed

text \<open>
  The registers stay within their widths under the constructor, \<^verbatim>\<open>reset\<close>, the pair
  setters, \<^verbatim>\<open>exchangeRegisterSets\<close>, \<^verbatim>\<open>step\<close> and a \<^verbatim>\<open>setState\<close> without a
  \<^verbatim>\<open>registers\<close> part.
\<close>

lemma regs_in_range_constructor: "regs_in_range constructor"
  by (simp add: regs_in_range_def constructor_facts)

lemma regs_in_range_reset: "regs_in_range (reset m)"
  unfolding regs_in_range_def
proof
  fix k show "0 \<le> reg (reset m) k \<and> reg (reset m) k < 2 ^ width k"
    by (cases k) (simp_all add: reset_def Let_def reg_def)
qed

lemma regs_in_range_set_reg:
  assumes "regs_in_range m" and "0 \<le> v" and "v < 2 ^ width k"
  shows "regs_in_range (set_reg k v m)"
  using assms by (simp add: regs_in_range_def reg_set_reg)

lemma byte_in_width: "(v::int) < 256 \<Longrightarrow> v < 2 ^ width k"
  by (cases k) simp_all

lemma regs_in_range_setBC: "regs_in_range m \<Longrightarrow> regs_in_range (setBC v m)"
  by (simp add: setBC_def js_and_FF js_shr_8_mod regs_in_range_set_reg)

lemma regs_in_range_setDE: "regs_in_range m \<Longrightarrow> regs_in_range (setDE v m)"
  by (simp add: setDE_def js_and_FF js_shr_8_mod regs_in_range_set_reg)

lemma regs_in_range_setHL: "regs_in_range m \<Longrightarrow> regs_in_range (setHL v m)"
  by (simp add: setHL_def js_and_FF js_shr_8_mod regs_in_range_set_reg)

lemma regs_in_range_exchangeRegisterSets:
  assumes "regs_in_range m"
  shows "regs_in_range (exchangeRegisterSets m)"
  unfolding regs_in_range_def
proof
  fix k
  have r: "0 \<le> regs (registers m) k' \<and> regs (registers m) k' < 2 ^ width k'" for k'
    using assms by (simp add: regs_in_range_def reg_def)
  show "0 \<le> reg (exchangeRegisterSets m) k \<and> reg (exchangeRegisterSets m) k < 2 ^ width k"
    using r[of k] r[of a_reg] r[of b_reg] r[of c_reg] r[of d_reg] r[of e_reg] r[of h_reg]
      r[of l_reg] r[of a_prime] r[of b_prime] r[of c_prime] r[of d_prime] r[of e_prime]
      r[of h_prime] r[of l_prime]
    by (cases k) (simp_all add: exchangeRegisterSets_def Let_def reg_def)
qed

lemma regs_in_range_executeInstruction:
  assumes "regs_in_range m"
  shows "regs_in_range (executeInstruction opcode m)"
proof -
  have "regs_in_range (set_reg a_reg (readByte m (reg m pc_reg))
          (set_reg pc_reg ((reg m pc_reg + 1) mod 65536) m))"
    using readByte_range[of m "reg m pc_reg"] assms
    by (intro regs_in_range_set_reg) simp_all
  moreover have "regs_in_range (m\<lparr>halted := True\<rparr>)"
    using assms by (simp add: regs_in_range_def reg_def)
  ultimately show ?thesis
    using assms by (simp add: executeInstruction_def Let_def js_and_FFFF)
qed

lemma regs_in_range_step: "regs_in_range m \<Longrightarrow> regs_in_range (snd (step m))"
  by (simp add: step_def Let_def js_and_FFFF regs_in_range_executeInstruction
      regs_in_range_set_reg)

lemma regs_in_range_setState_top:
  assumes "regs_in_range m" and "st_registers st = None"
  shows "regs_in_range (setState st m)"
proof -
  have f: "regs_in_range (x\<lparr>objects := ob\<rparr>) = regs_in_range x"
    "regs_in_range (x\<lparr>halted := hv\<rparr>) = regs_in_range x"
    "regs_in_range (x\<lparr>interruptsEnabled := iv\<rparr>) = regs_in_range x" for x ob hv iv
    by (simp_all add: regs_in_range_def reg_def)
  show ?thesis
    using assms
    by (simp add: setState_def Let_def js_and_FFFF f regs_in_range_set_reg split: option.split)
qed

text \<open>
  Claim C2.  \<^verbatim>\<open>setState\<close> does not mask the values under \<^verbatim>\<open>registers\<close>: on a new engine,
  \<^verbatim>\<open>setState({registers: {a: 300}})\<close> leaves 300 in the 8-bit register A, and
  \<^verbatim>\<open>setState({registers: {pc: 70000}})\<close> leaves 70000 in PC, whereas \<^verbatim>\<open>setState({pc: 70000})\<close>
  stores 70000 mod 65536 = 4464.
\<close>

theorem setState_stores_unmasked:
  "regs_in_range constructor
   \<and> reg (setState (no_state\<lparr>st_registers :=
          Some \<lparr>arg_regs = [a_reg \<mapsto> 300], arg_flags = None, arg_flags_prime = None\<rparr>\<rparr>)
        constructor) a_reg = 300
   \<and> \<not> regs_in_range (setState (no_state\<lparr>st_registers :=
          Some \<lparr>arg_regs = [a_reg \<mapsto> 300], arg_flags = None, arg_flags_prime = None\<rparr>\<rparr>)
        constructor)
   \<and> reg (setState (no_state\<lparr>st_registers :=
          Some \<lparr>arg_regs = [pc_reg \<mapsto> 70000], arg_flags = None, arg_flags_prime = None\<rparr>\<rparr>)
        constructor) pc_reg = 70000
   \<and> reg (setState (no_state\<lparr>st_pc := Some 70000\<rparr>) constructor) pc_reg = 4464"
proof -
  let ?m = "setState (no_state\<lparr>st_registers :=
          Some \<lparr>arg_regs = [a_reg \<mapsto> 300], arg_flags = None, arg_flags_prime = None\<rparr>\<rparr>)
        constructor"
  have a: "reg ?m a_reg = 300"
    by (simp add: setState_def no_state_def reg_def Let_def)
  have "\<not> (0 \<le> reg ?m a_reg \<and> reg ?m a_reg < 2 ^ width a_reg)"
    unfolding a by simp
  then have n: "\<not> regs_in_range ?m"
    unfolding regs_in_range_def by blast
  show ?thesis
    using a n regs_in_range_constructor
    by (simp add: setState_def no_state_def reg_def constructor_def Let_def set_reg_def js_and_FFFF)
qed

end
